theory Spec2Isabelle
  imports Complex_Main
begin

section \<open>Marine heatwaves demo notebook: data model\<close>

text \<open>
  The development follows the code cells of \<^verbatim>\<open>Marine_heatwaves_demo-2\<close>: the URL
  lists (cell 2), opening and time-slicing the dataset (cell 3), the box averages
  (cells 6 and 11), the ordinal-day axis (cell 14), the detector call and the choice of
  the largest event (cell 15) and the shading of events (cell 17).

  Grid values and intensities are exact reals: every cell of the grid holds a value,
  and rounding is not modelled. NaN arises only as the mean of an empty selection and is
  \<open>None\<close>. Python exceptions are values of the type \<open>error\<close>. Of cell 17 the lookups and
  the shaded regions are modelled; the calls that only style the plot are not.
\<close>

datatype error = IndexError | ValueError | OSError

subsection \<open>Python and numpy primitives used by the cells\<close>


text \<open>
  \<^verbatim>\<open>np.arange(start, stop)\<close> on integers; the notebook's second use passes the step
  as the literal 1, which is the default.
\<close>

definition np_arange :: "int \<Rightarrow> int \<Rightarrow> int list" where
  "np_arange start stop = [start..stop - 1]"

text \<open>
  \<^verbatim>\<open>xs[i]\<close>: a negative index counts from the end, an index out of range raises
  IndexError.
\<close>

definition getitem :: "'a list \<Rightarrow> int \<Rightarrow> error + 'a" where
  "getitem xs i =
     (if 0 \<le> i \<and> i < int (length xs) then Inr (xs ! nat i)
      else if i < 0 \<and> - int (length xs) \<le> i then Inr (xs ! nat (int (length xs) + i))
      else Inl IndexError)"

text \<open>\<^verbatim>\<open>np.where(t == v)[0]\<close>: the positions of \<open>t\<close> that hold \<open>v\<close>, in order.\<close>

definition np_where_eq :: "int list \<Rightarrow> int \<Rightarrow> nat list" where
  "np_where_eq t v = filter (\<lambda>i. t ! i = v) [0..<length t]"

text \<open>\<^verbatim>\<open>np.where(t == v)[0][0]\<close>: the first such position, IndexError when there is none.\<close>

definition where_first :: "int list \<Rightarrow> int \<Rightarrow> error + nat" where
  "where_first t v = (case np_where_eq t v of [] \<Rightarrow> Inl IndexError | i # _ \<Rightarrow> Inr i)"

text \<open>
  \<^verbatim>\<open>np.argmax\<close>: the position of the first occurrence of the largest value; ValueError
  on an empty sequence. The scan keeps the best position and value seen so far.
\<close>

fun argmax_from :: "'a::linorder list \<Rightarrow> nat \<Rightarrow> nat \<Rightarrow> 'a \<Rightarrow> nat" where
  "argmax_from [] i best_i best = best_i"
| "argmax_from (x # xs) i best_i best =
     (if best < x then argmax_from xs (Suc i) i x else argmax_from xs (Suc i) best_i best)"

definition np_argmax :: "'a::linorder list \<Rightarrow> error + nat" where
  "np_argmax xs = (case xs of [] \<Rightarrow> Inl ValueError | x # rest \<Rightarrow> Inr (argmax_from rest 1 0 x))"

text \<open>\<^verbatim>\<open>xs[a:b]\<close> with non-negative bounds: never raises.\<close>

definition py_slice :: "'a list \<Rightarrow> nat \<Rightarrow> nat \<Rightarrow> 'a list" where
  "py_slice xs a b = drop a (take b xs)"

text \<open>The decimal text of an integer, as an f-string field prints it.\<close>

definition digit_char :: "nat \<Rightarrow> char" where
  "digit_char d = char_of (48 + d)"

fun str_nat :: "nat \<Rightarrow> string" where
  "str_nat n = (if n < 10 then [digit_char n] else str_nat (n div 10) @ [digit_char (n mod 10)])"

declare str_nat.simps [simp del]


subsection \<open>Dates and their ordinals\<close>

text \<open>
  An element of \<^verbatim>\<open>dates\<close> is a \<^verbatim>\<open>datetime.datetime\<close>; \<^verbatim>\<open>toordinal\<close> is the proleptic
  Gregorian ordinal of its date (1 January of year 1 is day 1) and ignores the time of
  day. The functions are those of the standard library; a date object always has a month
  from 1 to 12, so the table lookup is in range.
\<close>

record datetime =
  year :: int
  month :: int
  day :: int
  hour :: int
  minute :: int
  second :: int

definition is_leap :: "int \<Rightarrow> bool" where
  "is_leap y = (y mod 4 = 0 \<and> (y mod 100 \<noteq> 0 \<or> y mod 400 = 0))"

definition days_before_year :: "int \<Rightarrow> int" where
  "days_before_year yr = (let y = yr - 1 in y * 365 + y div 4 - y div 100 + y div 400)"

definition DAYS_BEFORE_MONTH :: "int list" where
  "DAYS_BEFORE_MONTH = [-1, 0, 31, 59, 90, 120, 151, 181, 212, 243, 273, 304, 334]"

definition days_before_month :: "int \<Rightarrow> int \<Rightarrow> int" where
  "days_before_month yr mo =
     DAYS_BEFORE_MONTH ! nat mo + (if 2 < mo \<and> is_leap yr then 1 else 0)"

definition ymd2ord :: "int \<Rightarrow> int \<Rightarrow> int \<Rightarrow> int" where
  "ymd2ord yr mo d = days_before_year yr + days_before_month yr mo + d"

definition toordinal :: "datetime \<Rightarrow> int" where
  "toordinal d = ymd2ord (year d) (month d) (day d)"

subsection \<open>The gridded dataset\<close>

text \<open>
  The dataset printed by cell 3: coordinates \<open>time\<close>, \<open>lat\<close>, \<open>lon\<close> and the two data
  variables \<open>sst\<close> and \<open>anom\<close>, each of dimensions (time, lat, lon).
\<close>

record dataset =
  time :: "datetime list"
  lat :: "real list"
  lon :: "real list"
  sst :: "real list list list"
  anom :: "real list list list"

text \<open>A data variable taken out of the dataset (\<^verbatim>\<open>ds.anom\<close>) carries its coordinates.\<close>

record dataarray =
  da_time :: "datetime list"
  da_lat :: "real list"
  da_lon :: "real list"
  da_values :: "real list list list"

definition grid_shape :: "nat \<Rightarrow> nat \<Rightarrow> nat \<Rightarrow> real list list list \<Rightarrow> bool" where
  "grid_shape nt ny nx v =
     (length v = nt \<and> (\<forall>slab \<in> set v. length slab = ny \<and> (\<forall>row \<in> set slab. length row = nx)))"

text \<open>
  Every variable has the shape of the coordinates, and the time index is increasing (the
  multi-file open concatenates the yearly files along time).
\<close>

definition wf_dataset :: "dataset \<Rightarrow> bool" where
  "wf_dataset ds =
     (grid_shape (length (time ds)) (length (lat ds)) (length (lon ds)) (sst ds) \<and>
      grid_shape (length (time ds)) (length (lat ds)) (length (lon ds)) (anom ds) \<and>
      sorted (map toordinal (time ds)))"

definition get_anom :: "dataset \<Rightarrow> dataarray" where
  "get_anom ds = \<lparr>da_time = time ds, da_lat = lat ds, da_lon = lon ds, da_values = anom ds\<rparr>"

definition get_sst :: "dataset \<Rightarrow> dataarray" where
  "get_sst ds = \<lparr>da_time = time ds, da_lat = lat ds, da_lon = lon ds, da_values = sst ds\<rparr>"

text \<open>Positional selection along one axis.\<close>

definition isel :: "nat list \<Rightarrow> 'a list \<Rightarrow> 'a list" where
  "isel idx xs = map (\<lambda>i. xs ! i) idx"

text \<open>
  \<^verbatim>\<open>slice(lo, hi)\<close> on a coordinate selects by label, both ends included: the positions
  whose coordinate lies in \<open>[lo, hi]\<close>.
\<close>

definition slice_indexer :: "real \<Rightarrow> real \<Rightarrow> real list \<Rightarrow> nat list" where
  "slice_indexer lo hi coord = filter (\<lambda>i. lo \<le> coord ! i \<and> coord ! i \<le> hi) [0..<length coord]"

text \<open>\<^verbatim>\<open>.sel(lat=slice(lat0, lat1), lon=slice(lon0, lon1))\<close> on a data variable.\<close>

definition sel_box :: "real \<Rightarrow> real \<Rightarrow> real \<Rightarrow> real \<Rightarrow> dataarray \<Rightarrow> dataarray" where
  "sel_box lat0 lat1 lon0 lon1 da =
     (let iy = slice_indexer lat0 lat1 (da_lat da);
          ix = slice_indexer lon0 lon1 (da_lon da)
      in \<lparr>da_time = da_time da,
          da_lat = isel iy (da_lat da),
          da_lon = isel ix (da_lon da),
          da_values = map (\<lambda>slab. map (\<lambda>row. isel ix row) (isel iy slab)) (da_values da)\<rparr>)"

text \<open>
  The mean of the cells of one time step; with no cell at all the result is NaN
  (\<open>None\<close>).
\<close>

definition mean_cells :: "real list \<Rightarrow> real option" where
  "mean_cells cells = (if cells = [] then None else Some (sum_list cells / real (length cells)))"

text \<open>\<^verbatim>\<open>.mean(['lat', 'lon'])\<close>: both spatial dimensions are reduced, time is kept.\<close>

definition mean_lat_lon :: "dataarray \<Rightarrow> real option list" where
  "mean_lat_lon da = map (\<lambda>slab. mean_cells (concat slab)) (da_values da)"

text \<open>
  \<^verbatim>\<open>ds.sel(time=slice('2010-12', '2011-05'))\<close>: a month-resolution label stands for the
  whole month, so the slice keeps the time steps whose (year, month) lies between the
  two labels.
\<close>

definition ym_le :: "int \<times> int \<Rightarrow> int \<times> int \<Rightarrow> bool" where
  "ym_le a b = (fst a < fst b \<or> (fst a = fst b \<and> snd a \<le> snd b))"

definition in_window :: "int \<times> int \<Rightarrow> int \<times> int \<Rightarrow> datetime \<Rightarrow> bool" where
  "in_window lo hi d = (ym_le lo (year d, month d) \<and> ym_le (year d, month d) hi)"

definition sel_time :: "int \<times> int \<Rightarrow> int \<times> int \<Rightarrow> dataset \<Rightarrow> dataset" where
  "sel_time lo hi ds =
     (let it = filter (\<lambda>k. in_window lo hi (time ds ! k)) [0..<length (time ds)]
      in \<lparr>time = isel it (time ds), lat = lat ds, lon = lon ds,
          sst = isel it (sst ds), anom = isel it (anom ds)\<rparr>)"

subsection \<open>Detector output and the notebook's cells\<close>

text \<open>
  The detector returns a dictionary of parallel columns, one entry per event, and the
  climatology aligned with the input series. Only the columns the notebook reads are
  kept.
\<close>

record mhws =
  time_start :: "int list"
  time_end :: "int list"
  intensity_max :: "real list"

record clim =
  seas :: "real list"
  thresh :: "real list"







text \<open>Cell 3, second statement: the time window of the notebook.\<close>

definition window_lo :: "int \<times> int" where
  "window_lo = (2010, 12)"

definition window_hi :: "int \<times> int" where
  "window_hi = (2011, 5)"

definition restrict_time :: "dataset \<Rightarrow> dataset" where
  "restrict_time ds = sel_time window_lo window_hi ds"


definition sst_lc :: "dataset \<Rightarrow> real option list" where
  "sst_lc ds = mean_lat_lon (sel_box (-32) (-26) 112 115 (get_sst ds))"

definition sst_anom_lc :: "dataset \<Rightarrow> real option list" where
  "sst_anom_lc ds = mean_lat_lon (sel_box (-32) (-26) 112 115 (get_anom ds))"

text \<open>
  Cell 14: \<^verbatim>\<open>dates\<close> is the time coordinate as a list, and
  \<^verbatim>\<open>t = np.arange(dates[0].toordinal(), dates[-1].toordinal() + 1)\<close>.
\<close>

definition dates_of :: "dataset \<Rightarrow> datetime list" where
  "dates_of ds = time ds"

definition ordinal_axis :: "datetime list \<Rightarrow> error + int list" where
  "ordinal_axis dates =
     (case getitem dates 0 of
        Inl e \<Rightarrow> Inl e
      | Inr d0 \<Rightarrow>
          (case getitem dates (-1) of
             Inl e \<Rightarrow> Inl e
           | Inr d1 \<Rightarrow> Inr (np_arange (toordinal d0) (toordinal d1 + 1))))"

text \<open>
  Cell 17, second subplot: a shaded region is drawn between the positions of an
  event's start and end day on the axis \<open>t\<close>.
\<close>

record fill =
  fill_dates :: "datetime list"
  first_pos :: nat
  last_pos :: nat
  colour :: string

definition shade_event :: "datetime list \<Rightarrow> int list \<Rightarrow> mhws \<Rightarrow> int \<Rightarrow> string \<Rightarrow> error + fill" where
  "shade_event dates t m ev0 c =
     (case getitem (time_start m) ev0 of
        Inl e \<Rightarrow> Inl e
      | Inr ts \<Rightarrow>
          (case where_first t ts of
             Inl e \<Rightarrow> Inl e
           | Inr t1 \<Rightarrow>
               (case getitem (time_end m) ev0 of
                  Inl e \<Rightarrow> Inl e
                | Inr te \<Rightarrow>
                    (case where_first t te of
                       Inl e \<Rightarrow> Inl e
                     | Inr t2 \<Rightarrow>
                         Inr \<lparr>fill_dates = py_slice dates t1 (t2 + 1),
                              first_pos = t1, last_pos = t2, colour = c\<rparr>))))"

text \<open>The body of \<^verbatim>\<open>for ev0 in np.arange(ev - 1, ev + 1, 1)\<close>, over the indices given.\<close>

fun shade_loop :: "datetime list \<Rightarrow> int list \<Rightarrow> mhws \<Rightarrow> int list \<Rightarrow> error + fill list" where
  "shade_loop dates t m [] = Inr []"
| "shade_loop dates t m (ev0 # rest) =
     (case shade_event dates t m ev0 ''(1, 0.6, 0.5)'' of
        Inl e \<Rightarrow> Inl e
      | Inr f \<Rightarrow>
          (case shade_loop dates t m rest of
             Inl e \<Rightarrow> Inl e
           | Inr fs \<Rightarrow> Inr (f # fs)))"

definition shade_all :: "datetime list \<Rightarrow> int list \<Rightarrow> mhws \<Rightarrow> int \<Rightarrow> error + fill list" where
  "shade_all dates t m ev =
     (case shade_loop dates t m (np_arange (ev - 1) (ev + 1)) of
        Inl e \<Rightarrow> Inl e
      | Inr fs \<Rightarrow>
          (case shade_event dates t m ev ''r'' of
             Inl e \<Rightarrow> Inl e
           | Inr f \<Rightarrow> Inr (fs @ [f])))"




section \<open>Notions the properties are stated with\<close>

text \<open>Daily cadence: each date is the day after its predecessor.\<close>

fun daily :: "datetime list \<Rightarrow> bool" where
  "daily (d # d' # rest) = (toordinal d' = toordinal d + 1 \<and> daily (d' # rest))"
| "daily _ = True"

text \<open>
  The bounding box in the words of the specification: the positions whose coordinate
  lies in the closed interval, and the arithmetic mean of the cells of one time step
  over the box (undefined, NaN, on an empty box).
\<close>

definition box_index :: "real \<Rightarrow> real \<Rightarrow> real list \<Rightarrow> nat set" where
  "box_index lo hi coord = {i. i < length coord \<and> lo \<le> coord ! i \<and> coord ! i \<le> hi}"


text \<open>
  The invariant the plotting code relies on: the columns have one entry per event and
  every start and end day lies between the first and the last day of the series.
\<close>

definition events_within :: "int \<Rightarrow> int \<Rightarrow> mhws \<Rightarrow> bool" where
  "events_within first_day last_day m =
     (length (time_start m) = length (intensity_max m) \<and>
      length (time_end m) = length (intensity_max m) \<and>
      (\<forall>s \<in> set (time_start m). first_day \<le> s \<and> s \<le> last_day) \<and>
      (\<forall>e \<in> set (time_end m). first_day \<le> e \<and> e \<le> last_day))"


section \<open>The event detector, from the specification\<close>

text \<open>
  Modelled from the spec: the event detector, the function \<^verbatim>\<open>detect\<close> of the module
  \<^verbatim>\<open>marineHeatWaves\<close> that cell 1 imports and cell 15 calls; the module is not among the
  sources. The model follows section 4.1 of the specification: flag each day where the
  observed value exceeds the threshold; merge flagged runs separated by small gaps into
  single events if within a configured joining distance; discard events shorter than a
  minimum duration; the peak intensity of an event is the maximum deviation from the
  seasonal climatology within the event. The specification leaves the smoothing and the
  percentile of the climatology open, so the climatology is a parameter: any function
  from the series to a seasonal mean and a threshold per day.
\<close>

record detector_params =
  max_gap :: nat
  min_duration :: nat

text \<open>Modelled from the spec: the flag of each day, whether the observed value exceeds the threshold.\<close>

definition exceeds :: "real list \<Rightarrow> real list \<Rightarrow> bool list" where
  "exceeds x th = map (\<lambda>(v, h). h < v) (zip x th)"

text \<open>
  Modelled from the spec: the flagged runs, as pairs (first position, last position);
  \<open>i\<close> is the position of the next flag and the third argument the start of the run
  that is open.
\<close>

fun find_runs :: "bool list \<Rightarrow> nat \<Rightarrow> nat option \<Rightarrow> (nat \<times> nat) list" where
  "find_runs [] i None = []"
| "find_runs [] i (Some s) = [(s, i - 1)]"
| "find_runs (f # fs) i None =
     (if f then find_runs fs (Suc i) (Some i) else find_runs fs (Suc i) None)"
| "find_runs (f # fs) i (Some s) =
     (if f then find_runs fs (Suc i) (Some s) else (s, i - 1) # find_runs fs (Suc i) None)"

text \<open>
  Modelled from the spec: merging across small gaps. Two runs with at most \<open>g\<close> unflagged
  days between them become one event.
\<close>

fun merge_gaps :: "nat \<Rightarrow> (nat \<times> nat) list \<Rightarrow> (nat \<times> nat) list" where
  "merge_gaps g ((s1, e1) # (s2, e2) # rest) =
     (if s2 - e1 - 1 \<le> g then merge_gaps g ((s1, e2) # rest)
      else (s1, e1) # merge_gaps g ((s2, e2) # rest))"
| "merge_gaps g rs = rs"

text \<open>
  Modelled from the spec: the minimum duration, the deviations of the observed values
  from the seasonal mean over the days of an event, and their maximum, the peak
  intensity. Events are the merged runs that are long enough.
\<close>

definition long_enough :: "nat \<Rightarrow> nat \<times> nat \<Rightarrow> bool" where
  "long_enough d r = (d \<le> snd r - fst r + 1)"

definition deviations :: "real list \<Rightarrow> real list \<Rightarrow> nat \<times> nat \<Rightarrow> real list" where
  "deviations x se r = map (\<lambda>k. x ! k - se ! k) [fst r..<Suc (snd r)]"

definition peak :: "real list \<Rightarrow> real" where
  "peak devs = fold max (tl devs) (hd devs)"

definition event_runs :: "detector_params \<Rightarrow> real list \<Rightarrow> clim \<Rightarrow> (nat \<times> nat) list" where
  "event_runs p x c =
     filter (long_enough (min_duration p))
       (merge_gaps (max_gap p) (find_runs (exceeds x (thresh c)) 0 None))"

text \<open>
  Modelled from the spec: the detector call, from the day sequence \<open>t\<close> and the series
  \<open>x\<close> to the event columns and the climatology. The function is missing from the
  sources; only its call in cell 15 is there.
\<close>

definition detect ::
  "detector_params \<Rightarrow> (int list \<Rightarrow> real list \<Rightarrow> clim) \<Rightarrow> int list \<Rightarrow> real list \<Rightarrow> mhws \<times> clim" where
  "detect p climatology t x =
     (let c = climatology t x;
          rs = event_runs p x c
      in (\<lparr>time_start = map (\<lambda>r. t ! fst r) rs,
           time_end = map (\<lambda>r. t ! snd r) rs,
           intensity_max = map (\<lambda>r. peak (deviations x (seas c) r)) rs\<rparr>, c))"

text \<open>Runs in order: each is non-empty and ends before the next one starts.\<close>

fun chain :: "(nat \<times> nat) list \<Rightarrow> bool" where
  "chain ((s1, e1) # (s2, e2) # rest) = (s1 \<le> e1 \<and> e1 < s2 \<and> chain ((s2, e2) # rest))"
| "chain [(s, e)] = (s \<le> e)"
| "chain [] = True"

section \<open>Example inputs\<close>

definition dt :: "int \<Rightarrow> int \<Rightarrow> int \<Rightarrow> datetime" where
  "dt y m d = \<lparr>year = y, month = m, day = d, hour = 0, minute = 0, second = 0\<rparr>"

text \<open>
  A small grid: latitudes -30, -28 and 0, longitudes 113, 200 and 210. The first two
  latitudes with the first longitude lie in the Leeuwin Current box, the last latitude
  with the last two longitudes in the Nino 3.4 box. The opened dataset starts on
  30 November 2010, one day before the time window.
\<close>

definition ds_raw :: dataset where
  "ds_raw =
     \<lparr>time = [dt 2010 11 30, dt 2010 12 1, dt 2010 12 2, dt 2010 12 3],
      lat = [-30, -28, 0],
      lon = [113, 200, 210],
      sst = [[[19, 25, 26], [19, 25, 26], [28, 29, 30]],
             [[21, 25, 26], [23, 25, 26], [28, 29, 30]],
             [[22, 25, 26], [26, 25, 26], [28, 29, 30]],
             [[20, 25, 26], [21, 25, 26], [28, 29, 30]]],
      anom = [[[0, 0, 0], [0, 0, 0], [0, 0, 0]],
              [[1, 0, 0], [1, 0, 0], [0, 1, 2]],
              [[2, 0, 0], [4, 0, 0], [0, 2, 2]],
              [[0, 0, 0], [1, 0, 0], [0, -1, 0]]]\<rparr>"

definition ds_demo :: dataset where
  "ds_demo =
     \<lparr>time = [dt 2010 12 1, dt 2010 12 2, dt 2010 12 3],
      lat = [-30, -28, 0],
      lon = [113, 200, 210],
      sst = [[[21, 25, 26], [23, 25, 26], [28, 29, 30]],
             [[22, 25, 26], [26, 25, 26], [28, 29, 30]],
             [[20, 25, 26], [21, 25, 26], [28, 29, 30]]],
      anom = [[[1, 0, 0], [1, 0, 0], [0, 1, 2]],
              [[2, 0, 0], [4, 0, 0], [0, 2, 2]],
              [[0, 0, 0], [1, 0, 0], [0, -1, 0]]]\<rparr>"

text \<open>The same grid with 2 December missing, and one with no day in the window.\<close>

definition ds_gap :: dataset where
  "ds_gap =
     \<lparr>time = [dt 2010 12 1, dt 2010 12 3],
      lat = [-30, -28, 0],
      lon = [113, 200, 210],
      sst = [[[21, 25, 26], [23, 25, 26], [28, 29, 30]],
             [[20, 25, 26], [21, 25, 26], [28, 29, 30]]],
      anom = [[[1, 0, 0], [1, 0, 0], [0, 1, 2]],
              [[0, 0, 0], [1, 0, 0], [0, -1, 0]]]\<rparr>"


text \<open>
  Two events on the three days of \<open>ds_demo\<close>: the first, on 1 and 2 December, is the
  largest; the second is 3 December alone.
\<close>

definition m_demo :: mhws where
  "m_demo = \<lparr>time_start = [734107, 734109], time_end = [734108, 734109], intensity_max = [3, 1]\<rparr>"










text \<open>
  Ten days for the detector of the specification, with a flat climatology: seasonal
  mean 20 and threshold 21 on every day.
\<close>

definition t_ten :: "int list" where
  "t_ten = [734107, 734108, 734109, 734110, 734111, 734112, 734113, 734114, 734115, 734116]"

definition x_ten :: "real list" where
  "x_ten = [20, 22, 23, 20, 22, 20, 20, 20, 25, 20]"

definition clim_flat :: "int list \<Rightarrow> real list \<Rightarrow> clim" where
  "clim_flat t x = \<lparr>seas = replicate (length x) 20, thresh = replicate (length x) 21\<rparr>"

definition p_demo :: detector_params where
  "p_demo = \<lparr>max_gap = 2, min_duration = 3\<rparr>"

section \<open>Lemmas about the primitives\<close>

subsection \<open>Indexing, ranges and lookups\<close>

lemma filter_eq_index: "filter (\<lambda>j. j = i) [0..<n] = (if i < n then [i] else [])"
  by (induction n) auto

lemma np_where_eq_distinct:
  assumes "distinct t" "i < length t" "t ! i = v"
  shows "np_where_eq t v = [i]"
proof -
  have "filter (\<lambda>j. t ! j = v) [0..<length t] = filter (\<lambda>j. j = i) [0..<length t]"
    using assms by (intro filter_cong) (auto simp: nth_eq_iff_index_eq)
  with assms(2) show ?thesis by (simp add: np_where_eq_def filter_eq_index)
qed

lemma length_np_arange: "length (np_arange a b) = nat (b - a)"
  by (simp add: np_arange_def)

lemma nth_np_arange: "i < nat (b - a) \<Longrightarrow> np_arange a b ! i = a + int i"
  by (simp add: np_arange_def)

lemma distinct_np_arange: "distinct (np_arange a b)"
  by (simp add: np_arange_def)

lemma where_first_arange:
  assumes "a \<le> v" "v < b"
  shows "where_first (np_arange a b) v = Inr (nat (v - a))"
proof -
  have "np_where_eq (np_arange a b) v = [nat (v - a)]"
    using assms by (intro np_where_eq_distinct) (auto simp: distinct_np_arange length_np_arange nth_np_arange)
  then show ?thesis by (simp add: where_first_def)
qed

lemma getitem_first: "xs \<noteq> [] \<Longrightarrow> getitem xs 0 = Inr (hd xs)"
  by (cases xs) (auto simp: getitem_def)

lemma getitem_last: "xs \<noteq> [] \<Longrightarrow> getitem xs (-1) = Inr (last xs)"
  by (cases xs) (auto simp: getitem_def last_conv_nth nat_add_distrib)

lemma getitem_empty: "getitem [] i = Inl IndexError"
  by (simp add: getitem_def)

lemma getitem_nonneg: "0 \<le> i \<Longrightarrow> i < int (length xs) \<Longrightarrow> getitem xs i = Inr (xs ! nat i)"
  by (simp add: getitem_def)

lemma ordinal_axis_nonempty:
  "dates \<noteq> [] \<Longrightarrow> ordinal_axis dates = Inr (np_arange (toordinal (hd dates)) (toordinal (last dates) + 1))"
  by (simp add: ordinal_axis_def getitem_first getitem_last)

lemma ordinal_axis_empty: "ordinal_axis [] = Inl IndexError"
  by (simp add: ordinal_axis_def getitem_empty)

lemma np_arange_pair: "np_arange (ev - 1) (ev + 1) = [ev - 1, ev]"
  by (simp add: np_arange_def upto_rec1)

subsection \<open>The largest element\<close>

lemma argmax_from_inv:
  assumes "drop i ys = xs" "i \<le> length ys" "bi < i" "ys ! bi = b"
    "\<forall>j<i. ys ! j \<le> b" "\<forall>j<bi. ys ! j < b"
  shows "argmax_from xs i bi b < length ys \<and>
         (\<forall>j<length ys. ys ! j \<le> ys ! argmax_from xs i bi b) \<and>
         (\<forall>j<argmax_from xs i bi b. ys ! j < ys ! argmax_from xs i bi b)"
  using assms
proof (induction xs arbitrary: i bi b)
  case Nil
  then have "i = length ys" by simp
  with Nil show ?case by simp
next
  case (Cons x xs)
  from Cons.prems(1) have ilt: "i < length ys"
    by (metis drop_all list.distinct(1) not_le)
  from Cons.prems(1) ilt have x: "ys ! i = x"
    by (metis Cons_nth_drop_Suc list.inject)
  from Cons.prems(1) ilt have d: "drop (Suc i) ys = xs"
    by (metis Cons_nth_drop_Suc list.inject)
  show ?case
  proof (cases "b < x")
    case True
    have a: "\<forall>j<Suc i. ys ! j \<le> x"
      using Cons.prems(5) True x by (auto simp: less_Suc_eq intro: order.trans less_imp_le)
    have b': "\<forall>j<i. ys ! j < x"
      using Cons.prems(5) True by (auto intro: le_less_trans)
    have "argmax_from xs (Suc i) i x < length ys \<and>
         (\<forall>j<length ys. ys ! j \<le> ys ! argmax_from xs (Suc i) i x) \<and>
         (\<forall>j<argmax_from xs (Suc i) i x. ys ! j < ys ! argmax_from xs (Suc i) i x)"
      using Cons.IH[OF d _ _ x a b'] ilt by simp
    with True show ?thesis by simp
  next
    case False
    have a: "\<forall>j<Suc i. ys ! j \<le> b"
      using Cons.prems(5) False x by (auto simp: less_Suc_eq)
    have "argmax_from xs (Suc i) bi b < length ys \<and>
         (\<forall>j<length ys. ys ! j \<le> ys ! argmax_from xs (Suc i) bi b) \<and>
         (\<forall>j<argmax_from xs (Suc i) bi b. ys ! j < ys ! argmax_from xs (Suc i) bi b)"
      using Cons.IH[OF d _ _ Cons.prems(4) a Cons.prems(6)] ilt Cons.prems(3) by simp
    with False show ?thesis by simp
  qed
qed

lemma np_argmax_spec:
  assumes "xs \<noteq> []"
  shows "\<exists>ev. np_argmax xs = Inr ev \<and> ev < length xs \<and>
         (\<forall>j<length xs. xs ! j \<le> xs ! ev) \<and> (\<forall>j<ev. xs ! j < xs ! ev)"
proof -
  from assms obtain x rest where xs: "xs = x # rest" by (cases xs) auto
  have "argmax_from rest 1 0 x < length xs \<and>
         (\<forall>j<length xs. xs ! j \<le> xs ! argmax_from rest 1 0 x) \<and>
         (\<forall>j<argmax_from rest 1 0 x. xs ! j < xs ! argmax_from rest 1 0 x)"
    by (rule argmax_from_inv) (auto simp: xs)
  then show ?thesis by (simp add: np_argmax_def xs)
qed

subsection \<open>Dates, the time window and the series\<close>

lemma daily_nth:
  "daily dates \<Longrightarrow> i < length dates \<Longrightarrow> toordinal (dates ! i) = toordinal (dates ! 0) + int i"
proof (induction dates arbitrary: i rule: daily.induct)
  case (1 d d' rest)
  show ?case
  proof (cases i)
    case 0
    then show ?thesis by simp
  next
    case (Suc j)
    with 1 have "toordinal ((d' # rest) ! j) = toordinal ((d' # rest) ! 0) + int j" by simp
    with 1(2) Suc show ?thesis by simp
  qed
qed simp_all

lemma sorted_isel_filter:
  assumes "sorted (map f xs)"
  shows "sorted (map f (isel (filter P [0..<length xs]) xs))"
proof -
  have "sorted_wrt (\<lambda>i j. f (xs ! i) \<le> f (xs ! j)) [0..<length xs]"
    using assms by (auto simp: sorted_wrt_iff_nth_less sorted_iff_nth_mono)
  then have "sorted_wrt (\<lambda>i j. f (xs ! i) \<le> f (xs ! j)) (filter P [0..<length xs])"
    by (rule sorted_wrt_filter)
  then show ?thesis
    by (simp add: isel_def sorted_wrt_map comp_def)
qed

lemma sorted_restrict_time:
  "sorted (map toordinal (time ds)) \<Longrightarrow> sorted (map toordinal (time (restrict_time ds)))"
  by (simp add: restrict_time_def sel_time_def Let_def sorted_isel_filter)

lemma grid_shape_isel:
  assumes "grid_shape nt ny nx v" "\<forall>k \<in> set it. k < nt"
  shows "grid_shape (length it) ny nx (isel it v)"
  using assms by (auto simp: grid_shape_def isel_def)

lemma wf_restrict_time:
  assumes "wf_dataset ds"
  shows "wf_dataset (restrict_time ds)"
proof -
  let ?it = "filter (\<lambda>k. in_window window_lo window_hi (time ds ! k)) [0..<length (time ds)]"
  have r: "time (restrict_time ds) = isel ?it (time ds)" "lat (restrict_time ds) = lat ds"
    "lon (restrict_time ds) = lon ds" "sst (restrict_time ds) = isel ?it (sst ds)"
    "anom (restrict_time ds) = isel ?it (anom ds)"
    by (simp_all add: restrict_time_def sel_time_def Let_def)
  have b: "\<forall>k \<in> set ?it. k < length (time ds)" by simp
  have l: "length (isel ?it (time ds)) = length ?it" by (simp add: isel_def)
  from assms have "grid_shape (length ?it) (length (lat ds)) (length (lon ds)) (isel ?it (sst ds))"
    "grid_shape (length ?it) (length (lat ds)) (length (lon ds)) (isel ?it (anom ds))"
    by (simp_all only: wf_dataset_def grid_shape_isel[OF _ b])
  moreover from assms have "sorted (map toordinal (time (restrict_time ds)))"
    by (simp add: wf_dataset_def sorted_restrict_time)
  ultimately show ?thesis
    unfolding wf_dataset_def r l by (simp add: r[symmetric])
qed

lemma sorted_hd_last:
  assumes "sorted (map f xs)" "xs \<noteq> []"
  shows "f (hd xs) \<le> f (last xs)"
proof -
  have "map f xs ! 0 \<le> map f xs ! (length xs - 1)"
    using assms by (intro sorted_nth_mono) auto
  with assms(2) show ?thesis by (simp add: hd_conv_nth last_conv_nth)
qed

lemma length_mean_lat_lon: "length (mean_lat_lon da) = length (da_values da)"
  by (simp add: mean_lat_lon_def)

lemma da_values_sel_box: "length (da_values (sel_box a b c d da)) = length (da_values da)"
  by (simp add: sel_box_def Let_def)

lemma length_sst_lc: "length (sst_lc ds) = length (sst ds)"
  by (simp add: sst_lc_def length_mean_lat_lon da_values_sel_box get_sst_def)


lemma length_sst_anom_lc: "length (sst_anom_lc ds) = length (anom ds)"
  by (simp add: sst_anom_lc_def length_mean_lat_lon da_values_sel_box get_anom_def)

lemma length_restrict_time:
  "length (sst (restrict_time ds)) = length (time (restrict_time ds))"
  "length (anom (restrict_time ds)) = length (time (restrict_time ds))"
  by (simp_all add: restrict_time_def sel_time_def Let_def isel_def)


subsection \<open>Decimal numerals and URLs\<close>






lemma str_nat_nonempty: "str_nat n \<noteq> []"
  by (subst str_nat.simps) simp








subsection \<open>Box averages\<close>

lemma set_slice_indexer: "set (slice_indexer lo hi coord) = box_index lo hi coord"
  by (auto simp: slice_indexer_def box_index_def)

lemma distinct_slice_indexer: "distinct (slice_indexer lo hi coord)"
  by (simp add: slice_indexer_def)

lemma length_slice_indexer: "length (slice_indexer lo hi coord) = card (box_index lo hi coord)"
  by (metis distinct_card distinct_slice_indexer set_slice_indexer)







subsection \<open>Runs of flagged days\<close>

lemma find_runs_bound:
  "(case cur of Some s \<Rightarrow> s < i | None \<Rightarrow> True) \<Longrightarrow> (s', e') \<in> set (find_runs fs i cur) \<Longrightarrow>
     (case cur of Some s \<Rightarrow> s | None \<Rightarrow> i) \<le> s' \<and> s' \<le> e' \<and> e' < i + length fs"
proof (induction fs i cur rule: find_runs.induct)
  case (1 i)
  then show ?case by simp
next
  case (2 i s)
  then show ?case by auto
next
  case (3 f fs i)
  then show ?case by (fastforce split: if_splits)
next
  case (4 f fs i s)
  then show ?case by (fastforce split: if_splits)
qed

lemma chain_Cons:
  "chain ((s, e) # rs) = (s \<le> e \<and> (rs \<noteq> [] \<longrightarrow> e < fst (hd rs)) \<and> chain rs)"
  by (cases rs) auto

lemma find_runs_chain:
  "(case cur of Some s \<Rightarrow> s < i | None \<Rightarrow> True) \<Longrightarrow> chain (find_runs fs i cur)"
proof (induction fs i cur rule: find_runs.induct)
  case (1 i)
  then show ?case by simp
next
  case (2 i s)
  then show ?case by auto
next
  case (3 f fs i)
  then show ?case by simp
next
  case (4 f fs i s)
  show ?case
  proof (cases f)
    case True
    with 4 show ?thesis by simp
  next
    case False
    have c: "chain (find_runs fs (Suc i) None)" using 4 False by simp
    have "e < fst (hd (find_runs fs (Suc i) None))"
      if "find_runs fs (Suc i) None \<noteq> []" "e = i - 1" for e
    proof -
      from that(1) obtain r rest where h: "find_runs fs (Suc i) None = r # rest"
        by (auto simp: neq_Nil_conv)
      then have "(fst r, snd r) \<in> set (find_runs fs (Suc i) None)" by simp
      from find_runs_bound[OF _ this] have "Suc i \<le> fst r" by simp
      with h that(2) show ?thesis by simp
    qed
    with c 4(3) False show ?thesis by (simp add: chain_Cons)
  qed
qed

lemma merge_gaps_chain: "chain rs \<Longrightarrow> chain (merge_gaps g rs)"
proof (induction g rs rule: merge_gaps.induct)
  case (1 g s1 e1 s2 e2 rest)
  show ?case
  proof (cases "s2 - e1 - 1 \<le> g")
    case True
    from 1(3) have "chain ((s1, e2) # rest)" by (cases rest) auto
    with 1(1) True show ?thesis by simp
  next
    case False
    from 1(3) have c: "chain ((s2, e2) # rest)" by simp
    with 1(2) False have c': "chain (merge_gaps g ((s2, e2) # rest))" by simp
    have "merge_gaps g ((s2, e2) # rest) \<noteq> [] \<and> fst (hd (merge_gaps g ((s2, e2) # rest))) = s2"
      by (induction g "(s2, e2) # rest" arbitrary: e2 rest rule: merge_gaps.induct) auto
    with c' 1(3) False show ?thesis by (simp add: chain_Cons)
  qed
qed simp_all

lemma merge_gaps_bound:
  "\<forall>r\<in>set rs. snd r < n \<Longrightarrow> \<forall>r\<in>set (merge_gaps g rs). snd r < n"
  by (induction g rs rule: merge_gaps.induct) auto

lemma chain_mem: "chain rs \<Longrightarrow> r \<in> set rs \<Longrightarrow> fst r \<le> snd r"
  by (induction rs rule: chain.induct) auto

lemma event_runs_mem:
  assumes "r \<in> set (event_runs p x c)" "length (thresh c) = length x"
  shows "fst r \<le> snd r \<and> snd r < length x"
proof -
  let ?runs = "find_runs (exceeds x (thresh c)) 0 None"
  have b: "\<forall>r\<in>set ?runs. snd r < length x"
  proof
    fix r assume "r \<in> set ?runs"
    then have "(fst r, snd r) \<in> set (find_runs (exceeds x (thresh c)) 0 None)" by simp
    from find_runs_bound[OF _ this] show "snd r < length x"
      using assms(2) by (simp add: exceeds_def)
  qed
  have "chain ?runs" by (rule find_runs_chain) simp
  then have c: "chain (merge_gaps (max_gap p) ?runs)" by (rule merge_gaps_chain)
  from assms(1) have m: "r \<in> set (merge_gaps (max_gap p) ?runs)"
    by (simp add: event_runs_def)
  from chain_mem[OF c m] merge_gaps_bound[OF b] m show ?thesis by blast
qed

lemma peak_Max: "devs \<noteq> [] \<Longrightarrow> peak devs = Max (set devs)"
proof (cases devs)
  case (Cons a list)
  have "Max (set (a # list)) = fold max list a" by (rule Max.set_eq_fold)
  with Cons show ?thesis by (simp add: peak_def)
qed simp

lemma strict_nth_le:
  assumes "sorted t" "distinct t" "a < length t" "b < length t"
  shows "t ! a \<le> t ! b \<longleftrightarrow> a \<le> b"
proof
  assume le: "t ! a \<le> t ! b"
  show "a \<le> b"
  proof (rule ccontr)
    assume "\<not> a \<le> b"
    then have ba: "b < a" by simp
    with assms(1,3) have "t ! b \<le> t ! a" by (simp add: sorted_nth_mono)
    with le have "t ! a = t ! b" by simp
    with assms(2,3,4) have "a = b" by (simp add: nth_eq_iff_index_eq)
    with ba show False by simp
  qed
next
  assume "a \<le> b"
  with assms(1,4) show "t ! a \<le> t ! b" by (simp add: sorted_nth_mono)
qed

lemma days_between:
  assumes "sorted t" "distinct t" "s \<le> e" "e < length t"
  shows "{k. k < length t \<and> t ! s \<le> t ! k \<and> t ! k \<le> t ! e} = {s..e}"
  using assms by (auto simp: strict_nth_le)

text \<open>On a contiguous day axis the events of the modelled detector lie within the series.\<close>

lemma detect_events_within:
  assumes "detect p climatology t x = (m, c)" "t = np_arange a (b + 1)"
    and "length x = length t" "length (thresh c) = length x"
  shows "events_within a b m"
proof -
  let ?rs = "event_runs p x c"
  from assms(1) have c: "c = climatology t x" by (auto simp: detect_def Let_def)
  from assms(1) have m: "time_start m = map (\<lambda>r. t ! fst r) ?rs"
    "time_end m = map (\<lambda>r. t ! snd r) ?rs"
    "intensity_max m = map (\<lambda>r. peak (deviations x (seas c) r)) ?rs"
    by (auto simp: detect_def Let_def)
  have in_range: "a \<le> t ! k \<and> t ! k \<le> b" if "k < length t" for k
    using that unfolding assms(2) by (simp add: length_np_arange nth_np_arange)
  have pos: "fst r < length t \<and> snd r < length t" if "r \<in> set ?rs" for r
    using event_runs_mem[OF that assms(4)] assms(3) by simp
  have "\<forall>s \<in> set (time_start m). a \<le> s \<and> s \<le> b"
    using pos in_range by (auto simp: m)
  moreover have "\<forall>e \<in> set (time_end m). a \<le> e \<and> e \<le> b"
    using pos in_range by (auto simp: m)
  ultimately show ?thesis by (simp add: events_within_def m)
qed

subsection \<open>Shading one event\<close>

lemma shade_event_ok:
  assumes "getitem (time_start m) ev0 = Inr s" "getitem (time_end m) ev0 = Inr e"
    "where_first t s = Inr t1" "where_first t e = Inr t2"
  shows "shade_event dates t m ev0 c =
           Inr \<lparr>fill_dates = py_slice dates t1 (t2 + 1), first_pos = t1, last_pos = t2, colour = c\<rparr>"
  using assms by (simp add: shade_event_def)

subsection \<open>The example inputs\<close>

lemmas calendar_defs = toordinal_def ymd2ord_def days_before_year_def days_before_month_def
  DAYS_BEFORE_MONTH_def is_leap_def

lemma wf_ds_raw: "wf_dataset ds_raw"
  by (simp add: wf_dataset_def ds_raw_def grid_shape_def dt_def calendar_defs)

lemma restrict_ds_raw: "restrict_time ds_raw = ds_demo"
  by code_simp

lemma restrict_ds_gap: "restrict_time ds_gap = ds_gap"
  by code_simp

lemma wf_ds_gap: "wf_dataset ds_gap"
  by (simp add: wf_dataset_def ds_gap_def grid_shape_def dt_def calendar_defs)


section \<open>The claims\<close>

text \<open>
  C1 (amended). For every non-empty \<^verbatim>\<open>dates\<close> sequence taken from the time coordinate
  of a well-formed dataset, the ordinal-day sequence \<open>t\<close> passed to the detector is
  contiguous: \<open>t[0]\<close> is the ordinal of the first date, each later element exceeds its
  predecessor by exactly 1, the last element is the ordinal of the last date, and \<open>t\<close>
  has as many elements as there are days from the first date to the last. When the dates
  are daily (each date is the day after its predecessor), \<open>t\<close> lists the ordinals of the
  dates and has the same length as the temperature sequence \<open>x\<close> handed to the detector.
  The cell does not check the cadence; with a missing day the two lengths differ, as the
  counterexample below shows.
\<close>

theorem ordinal_axis_contiguous:
  assumes "wf_dataset ds0" "dates = dates_of (restrict_time ds0)" "dates \<noteq> []"
  shows "\<exists>t. ordinal_axis dates = Inr t \<and> t \<noteq> [] \<and>
           hd t = toordinal (hd dates) \<and> last t = toordinal (last dates) \<and>
           (\<forall>i. Suc i < length t \<longrightarrow> t ! Suc i = t ! i + 1) \<and>
           length t = nat (toordinal (last dates) - toordinal (hd dates) + 1) \<and>
           (daily dates \<longrightarrow>
              t = map toordinal dates \<and> length t = length (sst_lc (restrict_time ds0)))"
proof -
  let ?a = "toordinal (hd dates)" and ?b = "toordinal (last dates)"
  let ?t = "np_arange ?a (?b + 1)"
  have srt: "sorted (map toordinal dates)"
    using assms(1,2) by (simp add: wf_dataset_def dates_of_def sorted_restrict_time)
  have ab: "?a \<le> ?b" using sorted_hd_last[OF srt assms(3)] .
  have ax: "ordinal_axis dates = Inr ?t" by (rule ordinal_axis_nonempty[OF assms(3)])
  have len: "length ?t = nat (?b - ?a + 1)" by (simp add: length_np_arange)
  have ne: "?t \<noteq> []" using ab len by auto
  have h: "hd ?t = ?a"
    using ne ab by (simp add: hd_conv_nth nth_np_arange)
  have l: "last ?t = ?b"
    using ne ab by (simp add: last_conv_nth nth_np_arange length_np_arange)
  have step: "\<forall>i. Suc i < length ?t \<longrightarrow> ?t ! Suc i = ?t ! i + 1"
    by (simp add: nth_np_arange length_np_arange)
  have d: "?t = map toordinal dates \<and> length ?t = length (sst_lc (restrict_time ds0))"
    if dl: "daily dates"
  proof -
    have n: "0 < length dates" using assms(3) by simp
    have hd0: "hd dates = dates ! 0" using assms(3) by (simp add: hd_conv_nth)
    have b: "?b = ?a + int (length dates - 1)"
      using daily_nth[OF dl, of "length dates - 1"] n assms(3)
      by (simp add: last_conv_nth hd0)
    have "length ?t = nat (int (length dates - 1) + 1)"
      by (simp add: length_np_arange b)
    also have "\<dots> = length dates" using n by arith
    finally have ld: "length ?t = length dates" .
    have nth: "?t ! i = toordinal (dates ! i)" if "i < length dates" for i
      using that daily_nth[OF dl that] by (simp add: nth_np_arange b hd0)
    have eq: "?t = map toordinal dates"
      by (rule nth_equalityI) (simp_all add: ld nth)
    have "length ?t = length (sst_lc (restrict_time ds0))"
      using ld assms(2) by (simp add: length_sst_lc length_restrict_time dates_of_def)
    with eq show ?thesis by simp
  qed
  from ax ne h l step len d show ?thesis by blast
qed

theorem ordinal_axis_contiguous_witness:
  "wf_dataset ds_raw \<and> dates_of (restrict_time ds_raw) \<noteq> [] \<and>
   daily (dates_of (restrict_time ds_raw)) \<and>
   ordinal_axis (dates_of (restrict_time ds_raw)) = Inr [734107, 734108, 734109] \<and>
   map toordinal (dates_of (restrict_time ds_raw)) = [734107, 734108, 734109] \<and>
   length (sst_lc (restrict_time ds_raw)) = 3"
proof -
  have ne: "dates_of (restrict_time ds_raw) \<noteq> []"
    by (simp add: restrict_ds_raw dates_of_def ds_demo_def)
  have dl: "daily (dates_of (restrict_time ds_raw))"
    by (simp add: restrict_ds_raw dates_of_def ds_demo_def dt_def calendar_defs)
  have ax: "ordinal_axis (dates_of (restrict_time ds_raw)) = Inr [734107, 734108, 734109]"
    by code_simp
  from ordinal_axis_contiguous[OF wf_ds_raw refl ne] ax dl
  have "[734107, 734108, 734109] = map toordinal (dates_of (restrict_time ds_raw)) \<and>
        length [734107, 734108, 734109 :: int] = length (sst_lc (restrict_time ds_raw))"
    by auto
  with wf_ds_raw ne dl ax show ?thesis by simp
qed

text \<open>
  The claim as first stated, for every non-empty \<^verbatim>\<open>dates\<close>, fails on a dataset with
  2 December 2010 missing: \<open>t\<close> has three elements and \<open>x\<close> has two.
\<close>

theorem ordinal_axis_length_counterexample:
  "wf_dataset ds_gap \<and> dates_of (restrict_time ds_gap) \<noteq> [] \<and>
   ordinal_axis (dates_of (restrict_time ds_gap)) = Inr [734107, 734108, 734109] \<and>
   sst_lc (restrict_time ds_gap) = [Some 22, Some (41 / 2)] \<and>
   length [734107, 734108, 734109 :: int] \<noteq> length (sst_lc (restrict_time ds_gap))"
proof -
  have ne: "dates_of (restrict_time ds_gap) \<noteq> []"
    by (subst restrict_ds_gap) (simp add: dates_of_def ds_gap_def)
  have ax: "ordinal_axis (dates_of (restrict_time ds_gap)) = Inr [734107, 734108, 734109]"
    by code_simp
  have x: "sst_lc (restrict_time ds_gap) = [Some 22, Some (41 / 2)]"
    by code_simp
  from wf_ds_gap ne ax x show ?thesis by simp
qed

text \<open>
  C2. For every event record returned by the detector call, the start day of the event
  is less than or equal to its end day, the end day is less than or equal to the last
  day of the input series, and the peak intensity of the event equals the maximum
  deviation of the observed values from the seasonal climatology over the days in
  [start, end]. The detector is the one modelled from the specification; the days are
  increasing and the climatology is aligned with the series.
\<close>

theorem detect_event_invariant:
  assumes "detect p climatology t x = (m, c)"
    and "length t = length x" "length (seas c) = length x" "length (thresh c) = length x"
    and "sorted t" "distinct t"
    and "i < length (intensity_max m)"
  shows "time_start m ! i \<le> time_end m ! i \<and> time_end m ! i \<le> last t \<and>
         intensity_max m ! i =
           Max ((\<lambda>k. x ! k - seas c ! k) `
                {k. k < length t \<and> time_start m ! i \<le> t ! k \<and> t ! k \<le> time_end m ! i})"
proof -
  let ?rs = "event_runs p x c"
  from assms(1) have c: "c = climatology t x"
    by (auto simp: detect_def Let_def)
  from assms(1) have m: "time_start m = map (\<lambda>r. t ! fst r) ?rs"
    "time_end m = map (\<lambda>r. t ! snd r) ?rs"
    "intensity_max m = map (\<lambda>r. peak (deviations x (seas c) r)) ?rs"
    by (auto simp: detect_def Let_def)
  from assms(7) have i: "i < length ?rs" by (simp add: m)
  define r where "r = ?rs ! i"
  have "r \<in> set ?rs" using i by (simp add: r_def)
  from event_runs_mem[OF this assms(4)] have se: "fst r \<le> snd r" and e: "snd r < length t"
    using assms(2) by simp_all
  have ts: "time_start m ! i = t ! fst r" and te: "time_end m ! i = t ! snd r"
    and im: "intensity_max m ! i = peak (deviations x (seas c) r)"
    using i by (simp_all add: m r_def)
  have ne: "t \<noteq> []" using e by auto
  have 1: "t ! fst r \<le> t ! snd r" using assms(5) se e by (simp add: sorted_nth_mono)
  have 2: "t ! snd r \<le> last t"
    using assms(5) e ne by (simp add: last_conv_nth sorted_nth_mono)
  have devs: "deviations x (seas c) r \<noteq> []" using se by (simp add: deviations_def)
  have "set [fst r..<Suc (snd r)] = {fst r..snd r}"
    by (simp only: set_upt atLeastLessThanSuc_atLeastAtMost)
  then have "set (deviations x (seas c) r) = (\<lambda>k. x ! k - seas c ! k) ` {fst r..snd r}"
    by (simp only: deviations_def set_map)
  also have "{fst r..snd r} = {k. k < length t \<and> t ! fst r \<le> t ! k \<and> t ! k \<le> t ! snd r}"
    using days_between[OF assms(5,6) se e] by simp
  finally have 3: "peak (deviations x (seas c) r) =
      Max ((\<lambda>k. x ! k - seas c ! k) ` {k. k < length t \<and> t ! fst r \<le> t ! k \<and> t ! k \<le> t ! snd r})"
    using peak_Max[OF devs] by simp
  from 1 2 3 show ?thesis by (simp add: ts te im)
qed

theorem detect_event_invariant_witness:
  "detect p_demo clim_flat t_ten x_ten =
     (\<lparr>time_start = [734108], time_end = [734111], intensity_max = [3]\<rparr>, clim_flat t_ten x_ten) \<and>
   length t_ten = length x_ten \<and>
   length (seas (clim_flat t_ten x_ten)) = length x_ten \<and>
   length (thresh (clim_flat t_ten x_ten)) = length x_ten \<and>
   sorted t_ten \<and> distinct t_ten \<and>
   (734108::int) \<le> 734111 \<and> 734111 \<le> last t_ten \<and>
   Max ((\<lambda>k. x_ten ! k - seas (clim_flat t_ten x_ten) ! k) `
        {k. k < length t_ten \<and> 734108 \<le> t_ten ! k \<and> t_ten ! k \<le> 734111}) = 3"
proof -
  let ?m = "\<lparr>time_start = [734108], time_end = [734111], intensity_max = [3]\<rparr>"
  have d: "detect p_demo clim_flat t_ten x_ten = (?m, clim_flat t_ten x_ten)"
    by code_simp
  have l: "length t_ten = length x_ten"
    "length (seas (clim_flat t_ten x_ten)) = length x_ten"
    "length (thresh (clim_flat t_ten x_ten)) = length x_ten"
    by (simp_all add: t_ten_def x_ten_def clim_flat_def)
  have s: "sorted t_ten" "distinct t_ten" by (simp_all add: t_ten_def)
  have i: "0 < length (intensity_max ?m)" by simp
  from detect_event_invariant[OF d l s i] d l s show ?thesis by simp
qed

text \<open>
  C3. For every non-empty event collection, \<^verbatim>\<open>ev = np.argmax(mhws['intensity_max'])\<close> is
  the index of an event whose peak intensity is greater than or equal to the peak
  intensity of every event of the collection: the largest event is found by the index of
  its peak intensity.
\<close>

theorem argmax_selects_largest_event:
  assumes "intensity_max m \<noteq> []"
  shows "\<exists>ev. np_argmax (intensity_max m) = Inr ev \<and> ev < length (intensity_max m) \<and>
           (\<forall>j<length (intensity_max m). intensity_max m ! j \<le> intensity_max m ! ev)"
  using np_argmax_spec[OF assms] by blast

theorem argmax_selects_largest_event_witness:
  "intensity_max m_demo \<noteq> [] \<and> np_argmax (intensity_max m_demo) = Inr 0 \<and>
   intensity_max m_demo ! 1 \<le> intensity_max m_demo ! 0"
proof -
  have ne: "intensity_max m_demo \<noteq> []" by (simp add: m_demo_def)
  have ev: "np_argmax (intensity_max m_demo) = Inr 0"
    by (simp add: m_demo_def np_argmax_def)
  from argmax_selects_largest_event[OF ne] ev
  have "\<forall>j<length (intensity_max m_demo). intensity_max m_demo ! j \<le> intensity_max m_demo ! 0"
    by auto
  moreover have "1 < length (intensity_max m_demo)" by (simp add: m_demo_def)
  ultimately have "intensity_max m_demo ! 1 \<le> intensity_max m_demo ! 0" by blast
  with ne ev show ?thesis by blast
qed










text \<open>
  C10. When every start and end day of the events lies between the ordinals of the first
  and the last date (the invariant of the detector, which the detector modelled from the
  specification establishes: \<open>detect_events_within\<close>), the lookups
  \<^verbatim>\<open>np.where(t == mhws['time_start'][ev0])[0][0]\<close> and
  \<^verbatim>\<open>np.where(t == mhws['time_end'][ev0])[0][0]\<close> succeed for every event index used in
  plotting, the two of the loop and \<open>ev\<close> itself: the array of matches is not empty, and
  cell 17 draws its three regions.
\<close>

theorem plot_lookups_succeed:
  assumes "dates \<noteq> []" "ordinal_axis dates = Inr t"
    and "events_within (toordinal (hd dates)) (toordinal (last dates)) m"
    and "np_argmax (intensity_max m) = Inr ev"
  shows "(\<forall>ev0 \<in> set (np_arange (int ev - 1) (int ev + 1)) \<union> {int ev}.
            \<exists>s e. getitem (time_start m) ev0 = Inr s \<and> getitem (time_end m) ev0 = Inr e \<and>
              np_where_eq t s \<noteq> [] \<and> np_where_eq t e \<noteq> [] \<and>
              where_first t s = Inr (nat (s - toordinal (hd dates))) \<and>
              where_first t e = Inr (nat (e - toordinal (hd dates)))) \<and>
         (\<exists>fs. shade_all dates t m (int ev) = Inr fs \<and> length fs = 3)"
proof -
  let ?a = "toordinal (hd dates)" and ?b = "toordinal (last dates)"
  let ?n = "length (intensity_max m)"
  have t: "t = np_arange ?a (?b + 1)"
    using ordinal_axis_nonempty[OF assms(1)] assms(2) by simp
  have ne: "intensity_max m \<noteq> []"
    using assms(4) by (auto simp: np_argmax_def)
  from np_argmax_spec[OF ne] assms(4) have ev: "ev < ?n" by auto
  from assms(3) have ls: "length (time_start m) = ?n" and le: "length (time_end m) = ?n"
    and rs: "\<forall>s \<in> set (time_start m). ?a \<le> s \<and> s \<le> ?b"
    and re: "\<forall>e \<in> set (time_end m). ?a \<le> e \<and> e \<le> ?b"
    by (simp_all add: events_within_def)
  have found: "where_first t v = Inr (nat (v - ?a)) \<and> np_where_eq t v \<noteq> []"
    if "?a \<le> v" "v \<le> ?b" for v
  proof -
    have w: "where_first t v = Inr (nat (v - ?a))"
      unfolding t using that by (intro where_first_arange) simp_all
    then have "np_where_eq t v \<noteq> []" by (auto simp: where_first_def)
    with w show ?thesis by simp
  qed
  have get: "\<exists>v. getitem xs ev0 = Inr v \<and> v \<in> set xs"
    if "length xs = ?n" "ev0 = int ev - 1 \<or> ev0 = int ev" for xs :: "int list" and ev0
  proof (cases "ev0 < 0")
    case True
    with that(2) have e0: "ev0 = -1" by auto
    from that(1) ev have "xs \<noteq> []" by auto
    then show ?thesis by (auto simp: e0 getitem_last)
  next
    case False
    with that ev have "0 \<le> ev0" "ev0 < int (length xs)" by auto
    then show ?thesis by (auto simp: getitem_nonneg)
  qed
  have one: "\<exists>s e. getitem (time_start m) ev0 = Inr s \<and> getitem (time_end m) ev0 = Inr e \<and>
              np_where_eq t s \<noteq> [] \<and> np_where_eq t e \<noteq> [] \<and>
              where_first t s = Inr (nat (s - ?a)) \<and> where_first t e = Inr (nat (e - ?a))"
    if "ev0 = int ev - 1 \<or> ev0 = int ev" for ev0
  proof -
    from get[OF ls that] obtain s where s: "getitem (time_start m) ev0 = Inr s" "s \<in> set (time_start m)"
      by blast
    from get[OF le that] obtain e where e: "getitem (time_end m) ev0 = Inr e" "e \<in> set (time_end m)"
      by blast
    from rs s(2) have "?a \<le> s" "s \<le> ?b" by auto
    from found[OF this] have fs: "where_first t s = Inr (nat (s - ?a))" "np_where_eq t s \<noteq> []" by auto
    from re e(2) have "?a \<le> e" "e \<le> ?b" by auto
    from found[OF this] have fe: "where_first t e = Inr (nat (e - ?a))" "np_where_eq t e \<noteq> []" by auto
    from s(1) e(1) fs fe show ?thesis by blast
  qed
  have ev_ok: "\<exists>f. shade_event dates t m ev0 c = Inr f"
    if "ev0 = int ev - 1 \<or> ev0 = int ev" for ev0 c
    using one[OF that] shade_event_ok by blast
  obtain f1 where f1: "shade_event dates t m (int ev - 1) ''(1, 0.6, 0.5)'' = Inr f1"
    using ev_ok by blast
  obtain f2 where f2: "shade_event dates t m (int ev) ''(1, 0.6, 0.5)'' = Inr f2"
    using ev_ok by blast
  obtain f3 where f3: "shade_event dates t m (int ev) ''r'' = Inr f3"
    using ev_ok by blast
  have "shade_all dates t m (int ev) = Inr [f1, f2, f3]"
    by (simp add: shade_all_def np_arange_pair f1 f2 f3)
  then have all: "\<exists>fs. shade_all dates t m (int ev) = Inr fs \<and> length fs = 3" by simp
  have "\<forall>ev0 \<in> set (np_arange (int ev - 1) (int ev + 1)) \<union> {int ev}.
            \<exists>s e. getitem (time_start m) ev0 = Inr s \<and> getitem (time_end m) ev0 = Inr e \<and>
              np_where_eq t s \<noteq> [] \<and> np_where_eq t e \<noteq> [] \<and>
              where_first t s = Inr (nat (s - ?a)) \<and> where_first t e = Inr (nat (e - ?a))"
    using one by (auto simp: np_arange_pair)
  with all show ?thesis by blast
qed

theorem plot_lookups_succeed_witness:
  "time ds_demo \<noteq> [] \<and> ordinal_axis (time ds_demo) = Inr [734107, 734108, 734109] \<and>
   events_within (toordinal (hd (time ds_demo))) (toordinal (last (time ds_demo))) m_demo \<and>
   np_argmax (intensity_max m_demo) = Inr 0 \<and>
   (\<exists>fs. shade_all (time ds_demo) [734107, 734108, 734109] m_demo (int 0) = Inr fs \<and> length fs = 3)"
proof -
  have a: "time ds_demo \<noteq> []" by (simp add: ds_demo_def)
  have b: "ordinal_axis (time ds_demo) = Inr [734107, 734108, 734109]" by code_simp
  have c: "events_within (toordinal (hd (time ds_demo))) (toordinal (last (time ds_demo))) m_demo"
    by (simp add: events_within_def ds_demo_def m_demo_def dt_def calendar_defs)
  have d: "np_argmax (intensity_max m_demo) = Inr 0" by (simp add: m_demo_def np_argmax_def)
  from plot_lookups_succeed[OF a b c d] a b c d show ?thesis by blast
qed

end
